theory Spec2Isabelle
  imports Complex_Main "HOL-Library.Char_ord" "HOL-Library.List_Lexorder"
begin

section \<open>The persistence store\<close>

text \<open>
  \<^verbatim>\<open>Dsbda.py\<close> keeps three SQLite tables behind one connection. A table is modelled
  as the list of its rows in rowid order, which is the order of insertion (no statement of
  the program deletes or updates a row in place) and the order in which a \<^verbatim>\<open>SELECT\<close>
  without \<^verbatim>\<open>ORDER BY\<close> scans a table that has no index. A Python \<^verbatim>\<open>str\<close> is
  modelled as the byte list of its UTF-8 encoding: two strings are equal iff their encodings
  are, which is also how SQLite compares \<^verbatim>\<open>TEXT\<close> values, and the code point order of
  Python agrees with the bytewise lexicographic order of the encodings. A \<^verbatim>\<open>REAL\<close> value
  is modelled as a real number: rounding and overflow of binary floating point are not
  modelled, the special values of a division by zero are (see \<open>fval\<close> below).
\<close>

record user_row =
  u_username :: string
  u_password :: string

record expense_row =
  e_username :: string
  e_Date :: string
  e_Category :: string
  e_Description :: string
  e_Amount :: real

record budget_row =
  b_username :: string
  b_Category :: string
  b_Budget :: real

record store =
  users :: "user_row list"
  expenses :: "expense_row list"
  budgets :: "budget_row list"

text \<open>
  \<^verbatim>\<open>create_users_table\<close>, \<^verbatim>\<open>create_expense_table\<close> and
  \<^verbatim>\<open>create_budget_table\<close> run \<^verbatim>\<open>CREATE TABLE IF NOT EXISTS\<close>: on a fresh database
  they leave three empty tables, on an existing one they change nothing.
\<close>

definition fresh_store :: store where
  "fresh_store = \<lparr>users = [], expenses = [], budgets = []\<rparr>"

text \<open>
  None of the three \<^verbatim>\<open>CREATE TABLE\<close> statements declares a \<^verbatim>\<open>PRIMARY KEY\<close> or a
  \<^verbatim>\<open>UNIQUE\<close> column. A uniqueness constraint is modelled as a relation that says when two
  rows agree on the constrained columns; the list of constraints of the table
  \<^verbatim>\<open>budgets\<close>, as \<^verbatim>\<open>create_budget_table\<close> declares it, is empty.
\<close>

definition budgets_unique :: "(budget_row \<Rightarrow> budget_row \<Rightarrow> bool) list" where
  "budgets_unique = []"

text \<open>
  \<^verbatim>\<open>INSERT INTO t VALUES (...)\<close> on a table without constraints appends the row.
  \<^verbatim>\<open>REPLACE INTO\<close> is SQLite's \<^verbatim>\<open>INSERT OR REPLACE\<close>: it first deletes every stored
  row that the new row would conflict with under one of the table's uniqueness constraints,
  then inserts the new row.
\<close>

definition insert_into :: "'r \<Rightarrow> 'r list \<Rightarrow> 'r list" where
  "insert_into new tbl = tbl @ [new]"

definition replace_into :: "('r \<Rightarrow> 'r \<Rightarrow> bool) list \<Rightarrow> 'r \<Rightarrow> 'r list \<Rightarrow> 'r list" where
  "replace_into uniq new tbl =
     insert_into new (filter (\<lambda>old. \<not> list_ex (\<lambda>same_key. same_key old new) uniq) tbl)"

section \<open>Authentication\<close>

definition add_user :: "string \<Rightarrow> string \<Rightarrow> store \<Rightarrow> store" where
  "add_user username password s =
     s\<lparr>users := insert_into \<lparr>u_username = username, u_password = password\<rparr> (users s)\<rparr>"

text \<open>\<^verbatim>\<open>c.fetchone()\<close> is the first row of the result, or \<^verbatim>\<open>None\<close> when there is none.\<close>

definition fetchone :: "'r list \<Rightarrow> 'r option" where
  "fetchone rows = (case rows of [] \<Rightarrow> None | r # _ \<Rightarrow> Some r)"

definition login_user :: "string \<Rightarrow> string \<Rightarrow> store \<Rightarrow> user_row option" where
  "login_user username password s =
     fetchone (filter (\<lambda>r. u_username r = username \<and> u_password r = password) (users s))"

text \<open>
  \<^verbatim>\<open>hashlib.sha256(b).hexdigest()\<close> is library code outside the repository; the functions
  that call it take it as the parameter \<open>sha256_hexdigest\<close>, a function from the bytes
  hashed to the hexadecimal digest. \<^verbatim>\<open>password.encode()\<close> is the UTF-8 encoding, the
  identity on the modelled strings.
\<close>

definition encode :: "string \<Rightarrow> string" where
  "encode str = str"

definition hash_password :: "(string \<Rightarrow> string) \<Rightarrow> string \<Rightarrow> string" where
  "hash_password sha256_hexdigest password = sha256_hexdigest (encode password)"

definition check_password :: "(string \<Rightarrow> string) \<Rightarrow> string \<Rightarrow> string \<Rightarrow> bool" where
  "check_password sha256_hexdigest hashed user_pass =
     (hashed = sha256_hexdigest (encode user_pass))"

text \<open>
  The two branches of the module-level authentication form. The session state of Streamlit
  holds \<^verbatim>\<open>logged_in\<close> and \<^verbatim>\<open>username\<close>. \<^verbatim>\<open>if result:\<close> tests the truth value of
  what \<^verbatim>\<open>login_user\<close> returned: \<^verbatim>\<open>None\<close> is false, a fetched row is a tuple of two
  columns and so true.
\<close>

record session =
  logged_in :: bool
  username :: string

definition signup :: "(string \<Rightarrow> string) \<Rightarrow> string \<Rightarrow> string \<Rightarrow> store \<Rightarrow> store" where
  "signup sha256_hexdigest new_user new_pass s =
     (let hashed_pass = hash_password sha256_hexdigest new_pass
      in add_user new_user hashed_pass s)"

definition truthy :: "user_row option \<Rightarrow> bool" where
  "truthy result = (case result of None \<Rightarrow> False | Some row \<Rightarrow> True)"

definition authenticate :: "(string \<Rightarrow> string) \<Rightarrow> string \<Rightarrow> string \<Rightarrow> store \<Rightarrow> bool" where
  "authenticate sha256_hexdigest user passwd s =
     (let hashed = hash_password sha256_hexdigest passwd;
          result = login_user user hashed s
      in truthy result)"

definition login :: "(string \<Rightarrow> string) \<Rightarrow> string \<Rightarrow> string \<Rightarrow> store \<Rightarrow> session \<Rightarrow> session" where
  "login sha256_hexdigest user passwd s sess =
     (if authenticate sha256_hexdigest user passwd s
      then sess\<lparr>logged_in := True, username := user\<rparr>
      else sess)"

section \<open>Expense management\<close>

text \<open>A row of the data frame that \<^verbatim>\<open>get_expenses\<close> builds, with its four columns.\<close>

record expense =
  Date :: string
  Category :: string
  Description :: string
  Amount :: real

definition add_expense :: "string \<Rightarrow> string \<Rightarrow> string \<Rightarrow> string \<Rightarrow> real \<Rightarrow> store \<Rightarrow> store" where
  "add_expense user date category desc amount s =
     s\<lparr>expenses := insert_into
        \<lparr>e_username = user, e_Date = date, e_Category = category,
         e_Description = desc, e_Amount = amount\<rparr> (expenses s)\<rparr>"

definition selected :: "expense_row \<Rightarrow> expense" where
  "selected r = \<lparr>Date = e_Date r, Category = e_Category r,
                 Description = e_Description r, Amount = e_Amount r\<rparr>"

definition get_expenses :: "string \<Rightarrow> store \<Rightarrow> expense list" where
  "get_expenses user s = map selected (filter (\<lambda>r. e_username r = user) (expenses s))"

text \<open>A sequence of \<^verbatim>\<open>add_expense\<close> calls, each given by its five arguments.\<close>

fun record_all :: "expense_row list \<Rightarrow> store \<Rightarrow> store" where
  "record_all [] s = s"
| "record_all (call # calls) s =
     record_all calls
       (add_expense (e_username call) (e_Date call) (e_Category call)
          (e_Description call) (e_Amount call) s)"

section \<open>Budget management\<close>

definition set_budget :: "string \<Rightarrow> string \<Rightarrow> real \<Rightarrow> store \<Rightarrow> store" where
  "set_budget user category budget s =
     s\<lparr>budgets := replace_into budgets_unique
        \<lparr>b_username = user, b_Category = category, b_Budget = budget\<rparr> (budgets s)\<rparr>"

definition get_budgets :: "store \<Rightarrow> (string \<times> real) list" where
  "get_budgets s = map (\<lambda>r. (b_Category r, b_Budget r)) (budgets s)"

section \<open>Aggregation and reporting\<close>

subsection \<open>Category distribution\<close>

text \<open>
  \<^verbatim>\<open>df.groupby('Category')['Amount'].sum()\<close>: pandas keeps one entry per distinct key,
  with the keys in ascending order, and adds the values of a key in row order. The model
  walks the rows and keeps the groups as an association list sorted by key.
\<close>

fun add_to_group :: "'k::linorder \<Rightarrow> real \<Rightarrow> ('k \<times> real) list \<Rightarrow> ('k \<times> real) list" where
  "add_to_group k v [] = [(k, v)]"
| "add_to_group k v ((k', t) # groups) =
     (if k = k' then (k', t + v) # groups
      else if k < k' then (k, v) # (k', t) # groups
      else (k', t) # add_to_group k v groups)"

definition groupby_sum :: "('k::linorder \<times> real) list \<Rightarrow> ('k \<times> real) list" where
  "groupby_sum rows = fold (\<lambda>row groups. add_to_group (fst row) (snd row) groups) rows []"

definition category_totals :: "expense list \<Rightarrow> (string \<times> real) list" where
  "category_totals df = groupby_sum (map (\<lambda>r. (Category r, Amount r)) df)"

text \<open>
  \<^verbatim>\<open>category_data.plot.pie(...)\<close> draws the totals, unless one of them is negative: then
  pandas raises \<^verbatim>\<open>ValueError\<close> (a pie plot does not allow negative values), and the
  exception ends the call of \<^verbatim>\<open>visualize_expenses\<close>.
\<close>

datatype py_error = ValueError

datatype category_chart = NoCategoryData | Pie "(string \<times> real) list"

definition plot_pie :: "(string \<times> real) list \<Rightarrow> py_error + category_chart" where
  "plot_pie category_data =
     (if list_ex (\<lambda>total. snd total < 0) category_data then Inl ValueError
      else Inr (Pie category_data))"

definition category_distribution :: "expense list \<Rightarrow> py_error + category_chart" where
  "category_distribution df =
     (let category_data = category_totals df
      in if category_data = [] \<or> sum_list (map snd category_data) = 0
         then Inr NoCategoryData
         else plot_pie category_data)"

subsection \<open>Monthly trend\<close>

text \<open>
  The dates the program stores are written by \<^verbatim>\<open>date.strftime('%Y-%m-%d')\<close>.
  \<open>iso_date\<close> reads exactly this format: four digits, two digits, two digits, a real
  calendar day, and a year inside the range of a nanosecond timestamp (1678 to 2261).
\<close>

definition digit :: "char \<Rightarrow> nat option" where
  "digit ch = (let n = (of_char ch :: nat) in if 48 \<le> n \<and> n \<le> 57 then Some (n - 48) else None)"

fun number :: "nat \<Rightarrow> string \<Rightarrow> nat option" where
  "number acc [] = Some acc"
| "number acc (ch # rest) =
     (case digit ch of None \<Rightarrow> None | Some d \<Rightarrow> number (10 * acc + d) rest)"

definition is_leap :: "nat \<Rightarrow> bool" where
  "is_leap y = (if y mod 400 = 0 then True else if y mod 100 = 0 then False else y mod 4 = 0)"

definition days_in_month :: "nat \<Rightarrow> nat \<Rightarrow> nat" where
  "days_in_month y m =
     (if m = 2 then (if is_leap y then 29 else 28)
      else if m = 4 \<or> m = 6 \<or> m = 9 \<or> m = 11 then 30 else 31)"

definition iso_date :: "string \<Rightarrow> (nat \<times> nat \<times> nat) option" where
  "iso_date str =
     (if length str = 10 \<and> str ! 4 = CHR ''-'' \<and> str ! 7 = CHR ''-'' then
        (case number 0 (take 4 str) of
           None \<Rightarrow> None
         | Some y \<Rightarrow>
            (case number 0 (take 2 (drop 5 str)) of
               None \<Rightarrow> None
             | Some m \<Rightarrow>
                (case number 0 (drop 8 str) of
                   None \<Rightarrow> None
                 | Some d \<Rightarrow>
                    (if 1678 \<le> y \<and> y \<le> 2261 \<and> 1 \<le> m \<and> m \<le> 12 \<and>
                        1 \<le> d \<and> d \<le> days_in_month y m
                     then Some (y, m, d) else None))))
      else None)"

text \<open>
  \<^verbatim>\<open>pd.to_datetime(df['Date'])\<close> parses the whole column and raises when it cannot. On a
  column in which every text is such a date it returns these dates. pandas accepts many
  other formats too; what it does with a column that holds any other text is library
  behaviour that is not modelled here but taken as the parameter \<open>other_formats\<close>, which
  gives the parsed dates or \<open>None\<close> where pandas raises.
\<close>

definition to_datetime ::
  "(string list \<Rightarrow> (nat \<times> nat \<times> nat) list option) \<Rightarrow> string list \<Rightarrow>
     (nat \<times> nat \<times> nat) list option" where
  "to_datetime other_formats column =
     (case those (map iso_date column) of
        Some dates \<Rightarrow> Some dates
      | None \<Rightarrow> other_formats column)"

text \<open>
  \<^verbatim>\<open>df.resample('M', on='Date')['Amount'].sum()\<close>: one bin for every calendar month from
  the month of the earliest date to the month of the latest, in chronological order, also
  for a month in between that has no row; every row adds its amount to the bin of its
  month, and a bin without rows sums to 0. A month is counted as \<open>12 * year + (month - 1)\<close>.
\<close>

definition month_index :: "nat \<times> nat \<times> nat \<Rightarrow> nat" where
  "month_index date = (case date of (y, m, d) \<Rightarrow> 12 * y + (m - 1))"

definition month_of_index :: "nat \<Rightarrow> nat \<times> nat" where
  "month_of_index i = (i div 12, i mod 12 + 1)"

definition add_to_bin :: "nat \<Rightarrow> nat \<times> real \<Rightarrow> real list \<Rightarrow> real list" where
  "add_to_bin first row bins = bins[fst row - first := bins ! (fst row - first) + snd row]"

definition resample_month_sum :: "(nat \<times> real) list \<Rightarrow> (nat \<times> real) list" where
  "resample_month_sum rows =
     (case map fst rows of
        [] \<Rightarrow> []
      | i # is \<Rightarrow>
          (let first = fold min is i;
               last = fold max is i;
               bins = fold (add_to_bin first) rows (replicate (last - first + 1) 0)
           in zip [first ..< last + 1] bins))"

datatype trend_chart = NoTrendData | Line "((nat \<times> nat) \<times> real) list"

definition monthly_trend ::
  "(string list \<Rightarrow> (nat \<times> nat \<times> nat) list option) \<Rightarrow> expense list \<Rightarrow>
     py_error + trend_chart" where
  "monthly_trend other_formats df =
     (case to_datetime other_formats (map Date df) of
        None \<Rightarrow> Inl ValueError
      | Some dates \<Rightarrow>
          (let monthly = resample_month_sum (zip (map month_index dates) (map Amount df))
           in Inr (if monthly = [] then NoTrendData
                   else Line (map (\<lambda>bin. (month_of_index (fst bin), snd bin)) monthly))))"

subsection \<open>Budget against actual spending\<close>

text \<open>
  The columns \<^verbatim>\<open>Amount\<close> and \<^verbatim>\<open>Budget\<close> hold 64-bit floats, and the division of two
  such columns does not raise: a division by zero gives an infinity of the sign of the
  dividend, or NaN when the dividend is zero too. The result of the division is therefore
  a value of \<open>fval\<close>.
\<close>

datatype fval = Fin real | PInf | NInf | NaN

definition float_div :: "real \<Rightarrow> real \<Rightarrow> fval" where
  "float_div a b =
     (if b \<noteq> 0 then Fin (a / b)
      else if 0 < a then PInf
      else if a < 0 then NInf
      else NaN)"

definition float_mul :: "fval \<Rightarrow> real \<Rightarrow> fval" where
  "float_mul x c =
     (case x of
        Fin a \<Rightarrow> Fin (a * c)
      | NaN \<Rightarrow> NaN
      | PInf \<Rightarrow> (if 0 < c then PInf else if c < 0 then NInf else NaN)
      | NInf \<Rightarrow> (if 0 < c then NInf else if c < 0 then PInf else NaN))"

definition percentage :: "real \<Rightarrow> real \<Rightarrow> fval" where
  "percentage amount budget = float_mul (float_div amount budget) 100"

text \<open>
  \<^verbatim>\<open>left.merge(right, on='Category', how='right')\<close> keeps the rows of the right frame in
  their order; a right row is paired with every left row of its category, or once with a
  missing \<^verbatim>\<open>Amount\<close> when the left frame has none. \<^verbatim>\<open>fillna(0)\<close> then replaces the
  missing values by 0.
\<close>

definition merge_right ::
  "(string \<times> real) list \<Rightarrow> (string \<times> real) list \<Rightarrow> (string \<times> real option \<times> real) list" where
  "merge_right left right =
     concat (map (\<lambda>(c, b).
       (case filter (\<lambda>l. fst l = c) left of
          [] \<Rightarrow> [(c, None, b)]
        | l # ls \<Rightarrow> map (\<lambda>l. (c, Some (snd l), b)) (l # ls))) right)"

definition fillna :: "real \<Rightarrow> (string \<times> real option \<times> real) list \<Rightarrow> (string \<times> real \<times> real) list" where
  "fillna v merged = map (\<lambda>(c, a, b). (c, (case a of None \<Rightarrow> v | Some x \<Rightarrow> x), b)) merged"

text \<open>A bar of the chart: category, amount spent, budget, percentage.\<close>

datatype budget_chart = NoBudgets | NoComparison | Bars "(string \<times> real \<times> real \<times> fval) list"

definition budget_vs_actual :: "expense list \<Rightarrow> (string \<times> real) list \<Rightarrow> budget_chart" where
  "budget_vs_actual df budget_df =
     (if budget_df = [] then NoBudgets
      else
        (let merged = fillna 0 (merge_right (category_totals df) budget_df)
         in if merged = [] then NoComparison
            else Bars (map (\<lambda>(c, a, b). (c, a, b, percentage a b)) merged)))"

subsection \<open>The dashboard\<close>

text \<open>
  \<^verbatim>\<open>visualize_expenses(df)\<close> returns at once on an empty frame; otherwise it fills the
  three tabs in order, and an exception raised in one tab ends the call before the next.
  Of the drawing of the charts, which is left to the plotting libraries, only the refusal
  of a pie with a negative total is modelled.
\<close>

datatype dashboard = NoData | Tabs category_chart trend_chart budget_chart

definition visualize_expenses ::
  "(string list \<Rightarrow> (nat \<times> nat \<times> nat) list option) \<Rightarrow> expense list \<Rightarrow> store \<Rightarrow>
     py_error + dashboard" where
  "visualize_expenses other_formats df s =
     (if df = [] then Inr NoData
      else
        (case category_distribution df of
           Inl e \<Rightarrow> Inl e
         | Inr tab1 \<Rightarrow>
            (case monthly_trend other_formats df of
               Inl e \<Rightarrow> Inl e
             | Inr tab2 \<Rightarrow> Inr (Tabs tab1 tab2 (budget_vs_actual df (get_budgets s))))))"

text \<open>
  The amount recorded in a category: the sum of the \<^verbatim>\<open>Amount\<close> of the rows of that
  category, 0 when there is none. This is the specification's notion, against which the
  computed group sums are compared.
\<close>

definition spend :: "expense list \<Rightarrow> string \<Rightarrow> real" where
  "spend df c = sum_list (map Amount (filter (\<lambda>r. Category r = c) df))"

text \<open>The same for the rows of a generic grouping: the sum of the values under one key.\<close>

definition group_total :: "('k \<times> real) list \<Rightarrow> 'k \<Rightarrow> real" where
  "group_total rows k = sum_list (map snd (filter (\<lambda>r. fst r = k) rows))"

text \<open>
  The year and month of an expense whose date is a text of the stored format, and the
  amount recorded in a calendar month: again the specification's notions, against which
  the computed bins are compared. \<open>earlier\<close> is the chronological order of two
  (year, month) pairs.
\<close>

definition year_month :: "expense \<Rightarrow> (nat \<times> nat) option" where
  "year_month r = (case iso_date (Date r) of None \<Rightarrow> None | Some (y, m, d) \<Rightarrow> Some (y, m))"

definition month_spend :: "expense list \<Rightarrow> nat \<times> nat \<Rightarrow> real" where
  "month_spend df ym = sum_list (map Amount (filter (\<lambda>r. year_month r = Some ym) df))"

definition earlier :: "nat \<times> nat \<Rightarrow> nat \<times> nat \<Rightarrow> bool" where
  "earlier a b = (fst a < fst b \<or> (fst a = fst b \<and> snd a < snd b))"

text \<open>
  The month count of an expense whose date is such a text, and the rows that
  \<^verbatim>\<open>resample\<close> receives for a frame of such expenses.
\<close>

definition month_number :: "expense \<Rightarrow> nat" where
  "month_number r = (case iso_date (Date r) of None \<Rightarrow> 0 | Some date \<Rightarrow> month_index date)"

definition month_rows :: "expense list \<Rightarrow> (nat \<times> real) list" where
  "month_rows df = map (\<lambda>r. (month_number r, Amount r)) df"

section \<open>Properties of authentication\<close>

lemma fetchone_None: "fetchone rows = None \<longleftrightarrow> rows = []"
  by (cases rows) (simp_all add: fetchone_def)

lemma truthy_fetchone: "truthy (fetchone rows) \<longleftrightarrow> rows \<noteq> []"
  by (cases rows) (simp_all add: fetchone_def truthy_def)

lemma users_add_user:
  "users (add_user u h s) = users s @ [\<lparr>u_username = u, u_password = h\<rparr>]"
  by (simp add: add_user_def insert_into_def)

lemma login_user_None:
  "login_user u h s = None \<longleftrightarrow> \<not> (\<exists>r \<in> set (users s). u_username r = u \<and> u_password r = h)"
  by (auto simp: login_user_def fetchone_None filter_empty_conv)

text \<open>
  Claim C3. For every prior store, every user name and every password, and whatever the
  digest function is, the login check succeeds right after the sign-up of the same pair:
  \<^verbatim>\<open>login_user(u, hash_password(p))\<close> finds a row once
  \<^verbatim>\<open>add_user(u, hash_password(p))\<close> has run.
\<close>

theorem authenticate_after_signup:
  "authenticate H u p (signup H u p s) \<and>
   login_user u (hash_password H p) (add_user u (hash_password H p) s) \<noteq> None"
proof -
  have "login_user u (hash_password H p) (add_user u (hash_password H p) s) \<noteq> None"
    by (simp add: login_user_None users_add_user)
  moreover from this have "authenticate H u p (signup H u p s)"
    by (simp add: authenticate_def signup_def login_user_def truthy_fetchone fetchone_None)
  ultimately show ?thesis by simp
qed

text \<open>
  Claim C8. On every users table and every input pair the login check is a total boolean
  function, true exactly when some stored row holds the user name together with the digest
  of the password; with no such row (an unknown user name among them) it is false, and the
  session is left as it was.
\<close>

theorem authenticate_iff_row:
  "(authenticate H u p s \<longleftrightarrow>
      (\<exists>r \<in> set (users s). u_username r = u \<and> u_password r = hash_password H p)) \<and>
   login H u p s sess =
      (if \<exists>r \<in> set (users s). u_username r = u \<and> u_password r = hash_password H p
       then sess\<lparr>logged_in := True, username := u\<rparr> else sess)"
proof -
  have a: "authenticate H u p s \<longleftrightarrow>
      (\<exists>r \<in> set (users s). u_username r = u \<and> u_password r = hash_password H p)"
    by (auto simp: authenticate_def login_user_def truthy_fetchone filter_empty_conv)
  then show ?thesis by (simp add: login_def)
qed

text \<open>
  Claim C10. The SQL equality of \<^verbatim>\<open>login_user\<close>, asked with the digest of the password,
  finds a row exactly when some stored row of that user name passes the unused helper
  \<^verbatim>\<open>check_password\<close> against the plain password.
\<close>

theorem login_user_iff_check_password:
  "login_user u (hash_password H p) s \<noteq> None \<longleftrightarrow>
     (\<exists>r \<in> set (users s). u_username r = u \<and> check_password H (u_password r) p)"
  by (simp add: login_user_None check_password_def hash_password_def)

section \<open>Properties of the expense ledger\<close>

lemma expenses_add_expense:
  "expenses (add_expense u d c ds a s) =
     expenses s @ [\<lparr>e_username = u, e_Date = d, e_Category = c, e_Description = ds, e_Amount = a\<rparr>]"
  by (simp add: add_expense_def insert_into_def)

lemma expenses_record_all: "expenses (record_all calls s) = expenses s @ calls"
  by (induction calls arbitrary: s) (simp_all add: expenses_add_expense)

lemma get_expenses_record_all:
  "get_expenses u (record_all calls s) =
     get_expenses u s @ map selected (filter (\<lambda>c. e_username c = u) calls)"
  by (simp add: get_expenses_def expenses_record_all)

text \<open>
  Claim C7. After any sequence of \<^verbatim>\<open>add_expense\<close> calls, for any users in any
  interleaving, \<^verbatim>\<open>get_expenses(u)\<close> returns what it returned before, followed by one entry
  for each call made for \<open>u\<close>, in the order of the calls, and the entry of a call holds
  the date, the category, the description and the amount that the call recorded. On a fresh
  database these are exactly the \<open>N\<close> entries of the \<open>N\<close> calls for \<open>u\<close>, and when no
  call was made for \<open>u\<close> the result is the empty data frame.
\<close>

theorem get_expenses_after_record_all:
  "get_expenses u (record_all calls s) =
     get_expenses u s @
     map (\<lambda>c. \<lparr>Date = e_Date c, Category = e_Category c, Description = e_Description c, Amount = e_Amount c\<rparr>)
       (filter (\<lambda>c. e_username c = u) calls) \<and>
   get_expenses u (record_all calls fresh_store) =
     map (\<lambda>c. \<lparr>Date = e_Date c, Category = e_Category c, Description = e_Description c, Amount = e_Amount c\<rparr>)
       (filter (\<lambda>c. e_username c = u) calls) \<and>
   length (get_expenses u (record_all calls fresh_store)) =
     length (filter (\<lambda>c. e_username c = u) calls) \<and>
   get_expenses u (record_all (filter (\<lambda>c. e_username c \<noteq> u) calls) fresh_store) = []"
proof -
  have fresh: "get_expenses u fresh_store = []"
    by (simp add: get_expenses_def fresh_store_def)
  have entry: "selected = (\<lambda>c. \<lparr>Date = e_Date c, Category = e_Category c, Description = e_Description c, Amount = e_Amount c\<rparr>)"
    by (simp add: fun_eq_iff selected_def)
  show ?thesis
    by (simp add: get_expenses_record_all fresh entry)
qed

theorem get_expenses_after_record_all_witness:
  "get_expenses ''ann''
     (record_all
        [\<lparr>e_username = ''ann'', e_Date = ''2024-01-05'', e_Category = ''Food'', e_Description = ''lunch'', e_Amount = 10\<rparr>,
         \<lparr>e_username = ''bob'', e_Date = ''2024-01-06'', e_Category = ''Other'', e_Description = ''pen'', e_Amount = 2\<rparr>,
         \<lparr>e_username = ''ann'', e_Date = ''2024-01-07'', e_Category = ''Health'', e_Description = ''pills'', e_Amount = 12.5\<rparr>] fresh_store) =
   [\<lparr>Date = ''2024-01-05'', Category = ''Food'', Description = ''lunch'', Amount = 10\<rparr>,
    \<lparr>Date = ''2024-01-07'', Category = ''Health'', Description = ''pills'', Amount = 12.5\<rparr>]"
  using get_expenses_after_record_all [of "''ann''"
        "[\<lparr>e_username = ''ann'', e_Date = ''2024-01-05'', e_Category = ''Food'', e_Description = ''lunch'', e_Amount = 10\<rparr>,
         \<lparr>e_username = ''bob'', e_Date = ''2024-01-06'', e_Category = ''Other'', e_Description = ''pen'', e_Amount = 2\<rparr>,
         \<lparr>e_username = ''ann'', e_Date = ''2024-01-07'', e_Category = ''Health'', e_Description = ''pills'', e_Amount = 12.5\<rparr>]" fresh_store, THEN conjunct2, THEN conjunct1]
  by simp

text \<open>
  Claim C9. Recording an expense for one user leaves the listing of every other user as it
  was, on every store.
\<close>

theorem add_expense_frame:
  "u \<noteq> v \<Longrightarrow> get_expenses v (add_expense u d c ds a s) = get_expenses v s"
  by (simp add: get_expenses_def expenses_add_expense)

theorem add_expense_frame_witness:
  "''ann'' \<noteq> ''bob'' \<and>
   get_expenses ''bob''
     (add_expense ''ann'' ''2024-01-05'' ''Food'' ''lunch'' 10
        (add_expense ''bob'' ''2024-01-04'' ''Other'' ''pen'' 2 fresh_store)) =
   [\<lparr>Date = ''2024-01-04'', Category = ''Other'', Description = ''pen'', Amount = 2\<rparr>]"
proof -
  have ne: "''ann'' \<noteq> ''bob''" by simp
  have "get_expenses ''bob'' (add_expense ''bob'' ''2024-01-04'' ''Other'' ''pen'' 2 fresh_store) =
     [\<lparr>Date = ''2024-01-04'', Category = ''Other'', Description = ''pen'', Amount = 2\<rparr>]"
    by (simp add: get_expenses_def expenses_add_expense fresh_store_def selected_def)
  with ne add_expense_frame [OF ne] show ?thesis by simp
qed

section \<open>Properties of the budget registry\<close>

lemma budgets_set_budget:
  "budgets (set_budget u c b s) =
     budgets s @ [\<lparr>b_username = u, b_Category = c, b_Budget = b\<rparr>]"
  by (simp add: set_budget_def replace_into_def insert_into_def budgets_unique_def)

lemma get_budgets_set_budget:
  "get_budgets (set_budget u c b s) = get_budgets s @ [(c, b)]"
  by (simp add: get_budgets_def budgets_set_budget)

text \<open>
  Claim C1. \<^verbatim>\<open>set_budget\<close> is written as an upsert (\<^verbatim>\<open>REPLACE INTO\<close>), but the table
  it writes has no key to conflict on, so nothing is replaced: on a fresh database, setting
  the budget of Food to 100 and then to 200 leaves two rows for Food, and
  \<^verbatim>\<open>get_budgets\<close> returns both.
\<close>

theorem set_budget_twice_keeps_both:
  "get_budgets (set_budget ''alice'' ''Food'' 200 (set_budget ''alice'' ''Food'' 100 fresh_store)) =
     [(''Food'', 100), (''Food'', 200)]"
  by (simp add: get_budgets_def budgets_set_budget fresh_store_def)

section \<open>Properties of the category totals\<close>

lemma sum_add_to_group: "sum_list (map snd (add_to_group k v g)) = sum_list (map snd g) + v"
  by (induction g) auto

lemma keys_add_to_group: "fst ` set (add_to_group k v g) = insert k (fst ` set g)"
  by (induction g) force+

lemma sorted_add_to_group:
  "sorted_wrt (<) (map fst g) \<Longrightarrow> sorted_wrt (<) (map fst (add_to_group k v g))"
proof (induction g)
  case Nil
  then show ?case by simp
next
  case (Cons p g)
  obtain k' t where p: "p = (k', t)" by (cases p)
  from Cons.prems p have above: "\<forall>x \<in> fst ` set g. k' < x" and tail: "sorted_wrt (<) (map fst g)"
    by simp_all
  show ?case
  proof (cases "k = k'")
    case True
    with Cons.prems p show ?thesis by simp
  next
    case ne: False
    show ?thesis
    proof (cases "k < k'")
      case True
      with above have "\<forall>x \<in> fst ` set g. k < x" by fastforce
      with True ne p above tail show ?thesis by simp
    next
      case False
      with ne have "k' < k" by simp
      with above have "\<forall>x \<in> fst ` set (add_to_group k v g). k' < x"
        by (simp add: keys_add_to_group)
      with False ne p Cons.IH [OF tail] show ?thesis by simp
    qed
  qed
qed

lemma map_of_add_to_group:
  "sorted_wrt (<) (map fst g) \<Longrightarrow>
   map_of (add_to_group k v g) =
     (map_of g)(k \<mapsto> (case map_of g k of None \<Rightarrow> v | Some t \<Rightarrow> t + v))"
proof (induction g)
  case Nil
  then show ?case by simp
next
  case (Cons p g)
  obtain k' t where p: "p = (k', t)" by (cases p)
  show ?case
  proof (cases "k = k'")
    case True
    with p show ?thesis by (simp add: fun_eq_iff)
  next
    case ne: False
    show ?thesis
    proof (cases "k < k'")
      case True
      with Cons.prems p have "k \<notin> fst ` set g" by force
      then have "map_of g k = None" by (simp add: map_of_eq_None_iff)
      with True ne p show ?thesis by (simp add: fun_eq_iff)
    next
      case False
      with Cons p ne show ?thesis by (auto simp: fun_eq_iff)
    qed
  qed
qed

lemma fold_add_to_group:
  "sorted_wrt (<) (map fst g) \<Longrightarrow>
   sorted_wrt (<) (map fst (fold (\<lambda>row groups. add_to_group (fst row) (snd row) groups) rows g)) \<and>
   map_of (fold (\<lambda>row groups. add_to_group (fst row) (snd row) groups) rows g) k =
     (if k \<in> fst ` set rows \<or> k \<in> fst ` set g
      then Some ((case map_of g k of None \<Rightarrow> 0 | Some t \<Rightarrow> t) + group_total rows k)
      else None)"
proof (induction rows arbitrary: g)
  case Nil
  then show ?case
    by (auto simp: group_total_def map_of_eq_None_iff split: option.splits)
next
  case (Cons row rows)
  let ?g = "add_to_group (fst row) (snd row) g"
  have s: "sorted_wrt (<) (map fst ?g)"
    using Cons.prems by (rule sorted_add_to_group)
  have m: "map_of ?g = (map_of g)(fst row \<mapsto> (case map_of g (fst row) of None \<Rightarrow> snd row | Some t \<Rightarrow> t + snd row))"
    using Cons.prems by (rule map_of_add_to_group)
  have k: "fst ` set ?g = insert (fst row) (fst ` set g)"
    by (rule keys_add_to_group)
  have none: "k \<notin> fst ` set g \<Longrightarrow> map_of g k = None"
    by (simp add: map_of_eq_None_iff)
  have some: "k \<in> fst ` set g \<Longrightarrow> \<exists>t. map_of g k = Some t"
    by (cases "map_of g k") (auto simp: map_of_eq_None_iff)
  from Cons.IH [OF s] show ?case
    using none some by (auto simp: m k group_total_def split: option.splits)
qed

lemma groupby_sum_sorted: "sorted_wrt (<) (map fst (groupby_sum rows))"
  using fold_add_to_group [of "[]" rows] by (simp add: groupby_sum_def)

lemma map_of_groupby_sum:
  "map_of (groupby_sum rows) k =
     (if k \<in> fst ` set rows then Some (group_total rows k) else None)"
  using fold_add_to_group [of "[]" rows k] by (simp add: groupby_sum_def)

lemma sum_groupby_sum: "sum_list (map snd (groupby_sum rows)) = sum_list (map snd rows)"
proof -
  have "sum_list (map snd (fold (\<lambda>row groups. add_to_group (fst row) (snd row) groups) rows g)) =
        sum_list (map snd g) + sum_list (map snd rows)" for g
    by (induction rows arbitrary: g) (simp_all add: sum_add_to_group)
  then show ?thesis by (simp add: groupby_sum_def)
qed

lemma groupby_sum_Nil: "groupby_sum rows = [] \<longleftrightarrow> rows = []"
proof
  assume "groupby_sum rows = []"
  then have "map_of (groupby_sum rows) = Map.empty" by simp
  then have "\<forall>k. k \<notin> fst ` set rows"
    by (metis map_of_groupby_sum option.distinct(1))
  then show "rows = []" by (cases rows) auto
qed (simp add: groupby_sum_def)

lemma group_total_categories:
  "group_total (map (\<lambda>r. (Category r, Amount r)) df) c = spend df c"
  by (simp add: group_total_def spend_def filter_map comp_def)

lemma sorted_category_totals: "sorted_wrt (<) (map fst (category_totals df))"
  unfolding category_totals_def by (rule groupby_sum_sorted)

lemma map_of_category_totals:
  "map_of (category_totals df) c = (if c \<in> Category ` set df then Some (spend df c) else None)"
  by (simp add: category_totals_def map_of_groupby_sum group_total_categories image_image)

lemma sum_category_totals: "sum_list (map snd (category_totals df)) = sum_list (map Amount df)"
  by (simp add: category_totals_def sum_groupby_sum comp_def)

lemma category_totals_Nil: "category_totals df = [] \<longleftrightarrow> df = []"
  by (simp add: category_totals_def groupby_sum_Nil)

lemma filter_key_distinct:
  "distinct (map fst xs) \<Longrightarrow>
   filter (\<lambda>l. fst l = c) xs = (case map_of xs c of None \<Rightarrow> [] | Some v \<Rightarrow> [(c, v)])"
proof (induction xs)
  case Nil
  then show ?case by simp
next
  case (Cons p xs)
  show ?case
  proof (cases "fst p = c")
    case True
    with Cons.prems have "c \<notin> fst ` set xs" by auto
    then have "filter (\<lambda>l. fst l = c) xs = []"
      by (auto simp: filter_empty_conv)
    with True show ?thesis by (cases p) simp
  next
    case False
    with Cons show ?thesis by (cases p) simp
  qed
qed

lemma distinct_category_totals: "distinct (map fst (category_totals df))"
  using sorted_category_totals [of df] by (simp add: strict_sorted_iff)

lemma spend_absent: "c \<notin> Category ` set df \<Longrightarrow> spend df c = 0"
proof -
  assume "c \<notin> Category ` set df"
  then have "filter (\<lambda>r. Category r = c) df = []"
    by (auto simp: filter_empty_conv)
  then show ?thesis by (simp add: spend_def)
qed

lemma filter_category_totals:
  "filter (\<lambda>l. fst l = c) (category_totals df) =
     (if c \<in> Category ` set df then [(c, spend df c)] else [])"
  by (simp add: filter_key_distinct [OF distinct_category_totals] map_of_category_totals)

lemma category_totals_member: "(c, t) \<in> set (category_totals df) \<Longrightarrow> t = spend df c"
proof -
  assume "(c, t) \<in> set (category_totals df)"
  with distinct_category_totals have "map_of (category_totals df) c = Some t" by simp
  then show ?thesis by (simp add: map_of_category_totals split: if_splits)
qed

lemma negative_total:
  "list_ex (\<lambda>total. snd total < 0) (category_totals df) \<longleftrightarrow> (\<exists>c. spend df c < 0)"
proof
  assume "list_ex (\<lambda>total. snd total < 0) (category_totals df)"
  then obtain c t where "(c, t) \<in> set (category_totals df)" and "t < 0"
    by (auto simp: list_ex_iff)
  then show "\<exists>c. spend df c < 0" using category_totals_member by blast
next
  assume "\<exists>c. spend df c < 0"
  then obtain c where neg: "spend df c < 0" ..
  then have "c \<in> Category ` set df" using spend_absent [of c df] by force
  then have "map_of (category_totals df) c = Some (spend df c)"
    by (simp add: map_of_category_totals)
  then have "(c, spend df c) \<in> set (category_totals df)" by (rule map_of_SomeD)
  with neg show "list_ex (\<lambda>total. snd total < 0) (category_totals df)"
    by (force simp: list_ex_iff)
qed

lemma category_distribution_eq:
  "category_distribution df =
     (if df = [] \<or> sum_list (map Amount df) = 0 then Inr NoCategoryData
      else if \<exists>c. spend df c < 0 then Inl ValueError
      else Inr (Pie (category_totals df)))"
  by (simp add: category_distribution_def plot_pie_def negative_total sum_category_totals
      category_totals_Nil)

lemma category_distribution_returns:
  "(\<forall>c. 0 \<le> spend df c) \<or> sum_list (map Amount df) = 0 \<Longrightarrow>
   \<exists>tab1. category_distribution df = Inr tab1"
proof -
  assume "(\<forall>c. 0 \<le> spend df c) \<or> sum_list (map Amount df) = 0"
  then have "sum_list (map Amount df) = 0 \<or> \<not> (\<exists>c. spend df c < 0)"
    by (auto simp: not_less)
  then show ?thesis
    unfolding category_distribution_eq by auto
qed

text \<open>
  Claim C5. The category totals hold one entry for each category that occurs in the expense
  list, in ascending order of the category, and the entry of a category is the sum of the
  amounts recorded in it. The category tab signals that there is no data exactly when the
  expense list is empty or the sum over all categories is zero; otherwise it hands the
  totals to the pie plot, which draws them unless one of them is negative. On an empty list
  the whole dashboard is the no-data signal.
\<close>

theorem category_distribution_totals:
  "sorted_wrt (<) (map fst (category_totals df)) \<and>
   map_of (category_totals df) = (\<lambda>c. if c \<in> Category ` set df then Some (spend df c) else None) \<and>
   category_distribution df =
     (if df = [] \<or> sum_list (map Amount df) = 0 then Inr NoCategoryData
      else if \<exists>c. spend df c < 0 then Inl ValueError
      else Inr (Pie (category_totals df))) \<and>
   (category_distribution df = Inr NoCategoryData \<longleftrightarrow> df = [] \<or> sum_list (map Amount df) = 0) \<and>
   visualize_expenses other [] s = Inr NoData"
proof -
  have "category_distribution df = Inr NoCategoryData \<longleftrightarrow> df = [] \<or> sum_list (map Amount df) = 0"
    by (simp add: category_distribution_eq)
  then show ?thesis
    using category_distribution_eq [of df]
    by (simp add: sorted_category_totals map_of_category_totals fun_eq_iff visualize_expenses_def)
qed

theorem category_distribution_totals_witness:
  "category_distribution
     [\<lparr>Date = ''2024-01-05'', Category = ''Food'', Description = ''a'', Amount = 10\<rparr>,
      \<lparr>Date = ''2024-01-20'', Category = ''Food'', Description = ''b'', Amount = 5\<rparr>,
      \<lparr>Date = ''2024-02-01'', Category = ''Transport'', Description = ''c'', Amount = 20\<rparr>] =
   Inr (Pie [(''Food'', 15), (''Transport'', 20)]) \<and>
   category_distribution
     [\<lparr>Date = ''2024-01-05'', Category = ''Food'', Description = ''a'', Amount = 0\<rparr>] =
   Inr NoCategoryData"
proof -
  have totals: "category_totals
     [\<lparr>Date = ''2024-01-05'', Category = ''Food'', Description = ''a'', Amount = 10\<rparr>,
      \<lparr>Date = ''2024-01-20'', Category = ''Food'', Description = ''b'', Amount = 5\<rparr>,
      \<lparr>Date = ''2024-02-01'', Category = ''Transport'', Description = ''c'', Amount = 20\<rparr>] =
     [(''Food'', 15), (''Transport'', 20)]"
    by (simp add: category_totals_def groupby_sum_def)
  have spent: "\<not> (\<exists>c. spend
     [\<lparr>Date = ''2024-01-05'', Category = ''Food'', Description = ''a'', Amount = 10\<rparr>,
      \<lparr>Date = ''2024-01-20'', Category = ''Food'', Description = ''b'', Amount = 5\<rparr>,
      \<lparr>Date = ''2024-02-01'', Category = ''Transport'', Description = ''c'', Amount = 20\<rparr>] c < 0)"
    by (simp add: spend_def)
  show ?thesis
    using category_distribution_totals
      [of "[\<lparr>Date = ''2024-01-05'', Category = ''Food'', Description = ''a'', Amount = 10\<rparr>,
      \<lparr>Date = ''2024-01-20'', Category = ''Food'', Description = ''b'', Amount = 5\<rparr>,
      \<lparr>Date = ''2024-02-01'', Category = ''Transport'', Description = ''c'', Amount = 20\<rparr>]"]
      category_distribution_totals
      [of "[\<lparr>Date = ''2024-01-05'', Category = ''Food'', Description = ''a'', Amount = 0\<rparr>]"]
    by (simp add: totals spent)
qed

section \<open>Properties of the monthly trend\<close>

lemma length_fold_add_to_bin: "length (fold (add_to_bin lo) rows bins) = length bins"
  by (induction rows arbitrary: bins) (simp_all add: add_to_bin_def)

lemma nth_fold_add_to_bin:
  "\<forall>row \<in> set rows. lo \<le> fst row \<and> fst row - lo < length bins \<Longrightarrow> j < length bins \<Longrightarrow>
   fold (add_to_bin lo) rows bins ! j = bins ! j + group_total rows (lo + j)"
proof (induction rows arbitrary: bins)
  case Nil
  then show ?case by (simp add: group_total_def)
next
  case (Cons row rows)
  let ?bins = "add_to_bin lo row bins"
  have len: "length ?bins = length bins" by (simp add: add_to_bin_def)
  from Cons.prems have lo: "lo \<le> fst row" and inside: "fst row - lo < length bins" by simp_all
  have here: "?bins ! j = bins ! j + (if fst row = lo + j then snd row else 0)"
    using lo inside Cons.prems(2) by (auto simp: add_to_bin_def nth_list_update)
  have "fold (add_to_bin lo) rows ?bins ! j = ?bins ! j + group_total rows (lo + j)"
    using Cons.prems by (intro Cons.IH) (simp_all add: len)
  with here show ?case by (simp add: group_total_def)
qed

lemma resample_month_sum_eq:
  "rows \<noteq> [] \<Longrightarrow>
   resample_month_sum rows =
     map (\<lambda>i. (i, group_total rows i)) [Min (fst ` set rows) ..< Max (fst ` set rows) + 1]"
proof -
  assume ne: "rows \<noteq> []"
  then obtain i "is" where keys: "map fst rows = i # is" by (cases rows) auto
  define lo where "lo = Min (fst ` set rows)"
  define hi where "hi = Max (fst ` set rows)"
  have set_keys: "fst ` set rows = set (i # is)"
    using keys by (metis set_map)
  have lo_fold: "fold min is i = lo"
    unfolding lo_def set_keys by (simp only: Min.set_eq_fold)
  have hi_fold: "fold max is i = hi"
    unfolding hi_def set_keys by (simp only: Max.set_eq_fold)
  have fin: "finite (fst ` set rows)" and nonempty: "fst ` set rows \<noteq> {}"
    using ne by simp_all
  have bounds: "lo \<le> fst row \<and> fst row \<le> hi" if "row \<in> set rows" for row
    using that fin by (simp add: lo_def hi_def)
  have "lo \<in> fst ` set rows" unfolding lo_def using fin nonempty by (rule Min_in)
  with bounds have lo_hi: "lo \<le> hi" by auto
  define n where "n = hi - lo + 1"
  define bins where "bins = fold (add_to_bin lo) rows (replicate n 0)"
  have upper: "hi + 1 = lo + n" using lo_hi by (simp add: n_def)
  have len: "length bins = n" by (simp add: bins_def length_fold_add_to_bin)
  have inside: "\<forall>row \<in> set rows. lo \<le> fst row \<and> fst row - lo < length (replicate n (0::real))"
  proof
    fix row assume "row \<in> set rows"
    from bounds [OF this] show "lo \<le> fst row \<and> fst row - lo < length (replicate n (0::real))"
      by (simp add: n_def) arith
  qed
  have nth: "bins ! j = group_total rows (lo + j)" if "j < n" for j
  proof -
    have "bins ! j = replicate n 0 ! j + group_total rows (lo + j)"
      unfolding bins_def using inside that by (intro nth_fold_add_to_bin) simp_all
    with that show ?thesis by simp
  qed
  have "zip [lo ..< lo + n] bins = map (\<lambda>i. (i, group_total rows i)) [lo ..< lo + n]"
    by (rule nth_equalityI) (simp_all add: len nth)
  then have "zip [lo ..< hi + 1] (fold (add_to_bin lo) rows (replicate (hi - lo + 1) 0)) =
      map (\<lambda>i. (i, group_total rows i)) [lo ..< hi + 1]"
    by (simp only: upper bins_def n_def)
  then show ?thesis
    unfolding resample_month_sum_def keys lo_def [symmetric] hi_def [symmetric]
    by (simp only: list.case Let_def lo_fold hi_fold)
qed


lemma those_map_Some:
  "\<forall>x \<in> set xs. f x \<noteq> None \<Longrightarrow> those (map f xs) = Some (map (\<lambda>x. the (f x)) xs)"
proof (induction xs)
  case Nil
  show ?case by simp
next
  case (Cons x xs)
  from Cons.prems obtain y where y: "f x = Some y" by (cases "f x") simp_all
  from Cons.prems have "those (map f xs) = Some (map (\<lambda>x. the (f x)) xs)"
    by (intro Cons.IH) simp
  with y show ?case by simp
qed

lemma iso_date_month: "iso_date str = Some (y, m, d) \<Longrightarrow> 1 \<le> m \<and> m \<le> 12"
  by (auto simp: iso_date_def split: if_splits option.splits)

lemma month_of_index_month_index:
  "1 \<le> m \<Longrightarrow> m \<le> 12 \<Longrightarrow> month_of_index (month_index (y, m, d)) = (y, m)"
proof -
  assume "1 \<le> m" and "m \<le> 12"
  then obtain k where k: "m = Suc k" "k < 12" by (cases m) auto
  then show ?thesis by (simp add: month_of_index_def month_index_def)
qed

lemma month_of_index_inj: "month_of_index i = month_of_index j \<Longrightarrow> i = j"
proof -
  assume "month_of_index i = month_of_index j"
  then have "i div 12 = j div 12" and "i mod 12 = j mod 12"
    by (simp_all add: month_of_index_def)
  then show "i = j" by (metis div_mult_mod_eq)
qed

lemma earlier_month_of_index: "i < j \<Longrightarrow> earlier (month_of_index i) (month_of_index j)"
proof -
  assume less: "i < j"
  define a r b s where "a = i div 12" and "r = i mod 12" and "b = j div 12" and "s = j mod 12"
  have i: "i = 12 * a + r" and j: "j = 12 * b + s"
    by (simp_all add: a_def r_def b_def s_def)
  have "a \<le> b" unfolding a_def b_def using less by (simp add: div_le_mono)
  moreover have "r < s" if "a = b"
    using that less i j by simp
  ultimately have "a < b \<or> (a = b \<and> r < s)" by auto
  then show ?thesis
    by (simp add: earlier_def month_of_index_def a_def r_def b_def s_def)
qed

lemma sorted_months: "sorted_wrt earlier (map month_of_index [lo ..< hi])"
proof -
  have "sorted_wrt (\<lambda>i j. earlier (month_of_index i) (month_of_index j)) [lo ..< hi]"
    by (rule sorted_wrt_mono_rel [where P = "(<)"]) (simp_all add: earlier_month_of_index)
  then show ?thesis by (simp add: sorted_wrt_map)
qed

lemma year_month_index:
  assumes "iso_date (Date r) \<noteq> None"
  shows "month_number r = i \<longleftrightarrow> year_month r = Some (month_of_index i)"
proof -
  from assms obtain y m d where parsed: "iso_date (Date r) = Some (y, m, d)"
    by (cases "iso_date (Date r)") auto
  then have inv: "month_of_index (month_index (y, m, d)) = (y, m)"
    using iso_date_month [OF parsed] by (simp add: month_of_index_month_index)
  from parsed have number: "month_number r = month_index (y, m, d)"
    by (simp add: month_number_def)
  show ?thesis
  proof
    assume "month_number r = i"
    with parsed inv number show "year_month r = Some (month_of_index i)"
      by (auto simp: year_month_def)
  next
    assume "year_month r = Some (month_of_index i)"
    with parsed have "month_of_index i = (y, m)" by (simp add: year_month_def)
    with inv have "month_index (y, m, d) = i" by (simp add: month_of_index_inj)
    with number show "month_number r = i" by simp
  qed
qed

lemma group_total_month_rows:
  assumes "\<forall>r \<in> set df. iso_date (Date r) \<noteq> None"
  shows "group_total (month_rows df) i = month_spend df (month_of_index i)"
proof -
  have "filter (\<lambda>r. month_number r = i) df =
        filter (\<lambda>r. year_month r = Some (month_of_index i)) df"
    using assms by (intro filter_cong refl) (simp add: year_month_index)
  then show ?thesis
    by (simp add: group_total_def month_rows_def month_spend_def filter_map comp_def)
qed

lemma to_datetime_iso:
  assumes "\<forall>r \<in> set df. iso_date (Date r) \<noteq> None"
  shows "to_datetime other (map Date df) = Some (map (\<lambda>r. the (iso_date (Date r))) df)"
proof -
  have "those (map (\<lambda>r. iso_date (Date r)) df) = Some (map (\<lambda>r. the (iso_date (Date r))) df)"
    using assms by (rule those_map_Some)
  then show ?thesis by (simp add: to_datetime_def comp_def)
qed

lemma month_rows_zip:
  assumes "\<forall>r \<in> set df. iso_date (Date r) \<noteq> None"
  shows "zip (map month_index (map (\<lambda>r. the (iso_date (Date r))) df)) (map Amount df) =
     month_rows df"
  using assms by (induction df) (auto simp: month_rows_def month_number_def)

lemma monthly_trend_eq:
  assumes "df \<noteq> []" and "\<forall>r \<in> set df. iso_date (Date r) \<noteq> None"
  shows "monthly_trend other df =
     Inr (Line (map (\<lambda>i. (month_of_index i, month_spend df (month_of_index i)))
        [Min (month_number ` set df) ..< Max (month_number ` set df) + 1]))"
proof -
  define rows where "rows = month_rows df"
  define lo where "lo = Min (fst ` set rows)"
  define hi where "hi = Max (fst ` set rows)"
  have parsed: "to_datetime other (map Date df) = Some (map (\<lambda>r. the (iso_date (Date r))) df)"
    using assms(2) by (rule to_datetime_iso)
  have zipped: "zip (map month_index (map (\<lambda>r. the (iso_date (Date r))) df)) (map Amount df) = rows"
    unfolding rows_def using assms(2) by (rule month_rows_zip)
  have start: "monthly_trend other df =
      Inr (if resample_month_sum rows = [] then NoTrendData
           else Line (map (\<lambda>bin. (month_of_index (fst bin), snd bin)) (resample_month_sum rows)))"
    by (simp only: monthly_trend_def parsed option.case zipped Let_def)
  have ne: "rows \<noteq> []" using assms(1) by (simp add: rows_def month_rows_def)
  have months: "fst ` set rows = month_number ` set df"
    by (force simp: rows_def month_rows_def)
  have "lo \<in> fst ` set rows"
    unfolding lo_def using ne by (intro Min_in) simp_all
  then have lo_hi: "lo \<le> hi" by (simp add: hi_def)
  have total: "group_total rows i = month_spend df (month_of_index i)" for i
    unfolding rows_def using assms(2) by (rule group_total_month_rows)
  have bins: "resample_month_sum rows =
      map (\<lambda>i. (i, month_spend df (month_of_index i))) [lo ..< hi + 1]"
    unfolding lo_def hi_def by (simp only: resample_month_sum_eq [OF ne] total)
  have "[lo ..< hi + 1] \<noteq> []" using lo_hi by simp
  then have nonempty: "(map (\<lambda>i. (i, month_spend df (month_of_index i))) [lo ..< hi + 1] = []) = False"
    by (simp only: map_is_Nil_conv)
  have "monthly_trend other df =
      Inr (Line (map (\<lambda>i. (month_of_index i, month_spend df (month_of_index i))) [lo ..< hi + 1]))"
    unfolding start bins by (simp only: nonempty if_False map_map comp_def fst_conv snd_conv)
  then show ?thesis by (simp only: lo_def hi_def months)
qed

lemma monthly_trend_returns:
  assumes "df \<noteq> []" and "\<forall>r \<in> set df. iso_date (Date r) \<noteq> None"
  shows "\<exists>tab2. monthly_trend other df = Inr tab2"
  using monthly_trend_eq [OF assms] by blast

text \<open>
  Claim C6, as the code has it. For a non-empty expense list whose dates are texts of the
  stored format, the monthly trend is a line chart with one bucket for every calendar month
  from the month of the earliest date to the month of the latest date, in chronological
  order, whether or not an expense falls into the month. A bucket is labelled by year and
  month, every expense falls into the bucket of the year and month of its date, whatever
  the day, and the value of a bucket is the sum of the amounts of the expenses of that
  month, which is 0 for a month without expenses.
\<close>

theorem monthly_trend_buckets:
  assumes "df \<noteq> []" and "\<forall>r \<in> set df. iso_date (Date r) \<noteq> None"
  shows "monthly_trend other df =
           Inr (Line (map (\<lambda>i. (month_of_index i, month_spend df (month_of_index i)))
             [Min (month_number ` set df) ..< Max (month_number ` set df) + 1])) \<and>
         sorted_wrt earlier
           (map month_of_index [Min (month_number ` set df) ..< Max (month_number ` set df) + 1]) \<and>
         (\<forall>r \<in> set df. year_month r = Some (month_of_index (month_number r)) \<and>
            Min (month_number ` set df) \<le> month_number r \<and>
            month_number r \<le> Max (month_number ` set df)) \<and>
         (\<exists>r \<in> set df. month_number r = Min (month_number ` set df)) \<and>
         (\<exists>r \<in> set df. month_number r = Max (month_number ` set df))"
proof -
  have fin: "finite (month_number ` set df)" and ne: "month_number ` set df \<noteq> {}"
    using assms(1) by simp_all
  have trend: "monthly_trend other df =
           Inr (Line (map (\<lambda>i. (month_of_index i, month_spend df (month_of_index i)))
             [Min (month_number ` set df) ..< Max (month_number ` set df) + 1]))"
    using assms by (rule monthly_trend_eq)
  have chron: "sorted_wrt earlier
           (map month_of_index [Min (month_number ` set df) ..< Max (month_number ` set df) + 1])"
    by (rule sorted_months)
  have covered: "\<forall>r \<in> set df. year_month r = Some (month_of_index (month_number r)) \<and>
            Min (month_number ` set df) \<le> month_number r \<and>
            month_number r \<le> Max (month_number ` set df)"
  proof
    fix r assume r: "r \<in> set df"
    with assms(2) have "iso_date (Date r) \<noteq> None" by simp
    then have "year_month r = Some (month_of_index (month_number r))"
      using year_month_index [of r "month_number r"] by simp
    moreover from r have "month_number r \<in> month_number ` set df" by simp
    then have "Min (month_number ` set df) \<le> month_number r"
      and "month_number r \<le> Max (month_number ` set df)"
      using fin by simp_all
    ultimately show "year_month r = Some (month_of_index (month_number r)) \<and>
            Min (month_number ` set df) \<le> month_number r \<and>
            month_number r \<le> Max (month_number ` set df)" by simp
  qed
  have "Min (month_number ` set df) \<in> month_number ` set df" using fin ne by (rule Min_in)
  then have first: "\<exists>r \<in> set df. month_number r = Min (month_number ` set df)" by auto
  have "Max (month_number ` set df) \<in> month_number ` set df" using fin ne by (rule Max_in)
  then have last: "\<exists>r \<in> set df. month_number r = Max (month_number ` set df)" by auto
  from trend chron covered first last show ?thesis by blast
qed

theorem monthly_trend_buckets_witness:
  "monthly_trend (\<lambda>column. None)
     [\<lparr>Date = ''2024-01-05'', Category = ''Food'', Description = ''a'', Amount = 10\<rparr>,
      \<lparr>Date = ''2024-01-20'', Category = ''Food'', Description = ''b'', Amount = 5\<rparr>,
      \<lparr>Date = ''2024-02-01'', Category = ''Other'', Description = ''c'', Amount = 7\<rparr>] =
     Inr (Line [((2024, 1), 15), ((2024, 2), 7)]) \<and>
   [((2024, 1), 15), ((2024, 2), 7)] =
     map (\<lambda>i. (month_of_index i, month_spend
       [\<lparr>Date = ''2024-01-05'', Category = ''Food'', Description = ''a'', Amount = 10\<rparr>,
        \<lparr>Date = ''2024-01-20'', Category = ''Food'', Description = ''b'', Amount = 5\<rparr>,
        \<lparr>Date = ''2024-02-01'', Category = ''Other'', Description = ''c'', Amount = 7\<rparr>]
       (month_of_index i)))
     [Min (month_number ` set
       [\<lparr>Date = ''2024-01-05'', Category = ''Food'', Description = ''a'', Amount = 10\<rparr>,
        \<lparr>Date = ''2024-01-20'', Category = ''Food'', Description = ''b'', Amount = 5\<rparr>,
        \<lparr>Date = ''2024-02-01'', Category = ''Other'', Description = ''c'', Amount = 7\<rparr>]) ..<
      Max (month_number ` set
       [\<lparr>Date = ''2024-01-05'', Category = ''Food'', Description = ''a'', Amount = 10\<rparr>,
        \<lparr>Date = ''2024-01-20'', Category = ''Food'', Description = ''b'', Amount = 5\<rparr>,
        \<lparr>Date = ''2024-02-01'', Category = ''Other'', Description = ''c'', Amount = 7\<rparr>]) + 1]"
proof -
  let ?df = "[\<lparr>Date = ''2024-01-05'', Category = ''Food'', Description = ''a'', Amount = 10\<rparr>,
      \<lparr>Date = ''2024-01-20'', Category = ''Food'', Description = ''b'', Amount = 5\<rparr>,
      \<lparr>Date = ''2024-02-01'', Category = ''Other'', Description = ''c'', Amount = 7\<rparr>]"
  have ne: "?df \<noteq> []" by simp
  have parse: "\<forall>r \<in> set ?df. iso_date (Date r) \<noteq> None"
    by (simp add: iso_date_def digit_def days_in_month_def is_leap_def)
  have run: "monthly_trend (\<lambda>column. None) ?df = Inr (Line [((2024, 1), 15), ((2024, 2), 7)])"
    by (simp add: monthly_trend_def to_datetime_def iso_date_def digit_def days_in_month_def
        is_leap_def resample_month_sum_def month_index_def month_of_index_def add_to_bin_def)
  from monthly_trend_buckets [OF ne parse, of "\<lambda>column. None", THEN conjunct1]
  have "[((2024, 1), 15), ((2024, 2), 7)] =
     map (\<lambda>i. (month_of_index i, month_spend ?df (month_of_index i)))
       [Min (month_number ` set ?df) ..< Max (month_number ` set ?df) + 1]"
    unfolding run by (simp only: sum.inject trend_chart.inject)
  with run show ?thesis by (rule conjI)
qed

text \<open>
  Claim C6 as stated fails where the dates leave a month out: for 10 on 2024-01-05 and 7 on
  2024-03-01 the trend has three buckets, and the one of February 2024 holds no expense.
\<close>

theorem monthly_trend_buckets_counterexample:
  "monthly_trend (\<lambda>column. None)
     [\<lparr>Date = ''2024-01-05'', Category = ''Food'', Description = ''a'', Amount = 10\<rparr>,
      \<lparr>Date = ''2024-03-01'', Category = ''Other'', Description = ''c'', Amount = 7\<rparr>] =
     Inr (Line [((2024, 1), 10), ((2024, 2), 0), ((2024, 3), 7)]) \<and>
   year_month \<lparr>Date = ''2024-01-05'', Category = ''Food'', Description = ''a'', Amount = 10\<rparr> =
     Some (2024, 1) \<and>
   year_month \<lparr>Date = ''2024-03-01'', Category = ''Other'', Description = ''c'', Amount = 7\<rparr> =
     Some (2024, 3)"
proof -
  have bins: "replicate 2 (0::real) = [0, 0]"
    by (simp add: eval_nat_numeral)
  show ?thesis
    by (simp add: monthly_trend_def to_datetime_def iso_date_def digit_def days_in_month_def
        is_leap_def resample_month_sum_def month_index_def month_of_index_def add_to_bin_def
        year_month_def bins)
qed

section \<open>Properties of the budget comparison\<close>

lemma merged_rows:
  "fillna 0 (merge_right (category_totals df) budget_df) =
     map (\<lambda>(c, b). (c, spend df c, b)) budget_df"
  by (induction budget_df)
     (auto simp: merge_right_def fillna_def filter_category_totals spend_absent)

lemma budget_vs_actual_eq:
  "budget_vs_actual df budget_df =
     (if budget_df = [] then NoBudgets
      else Bars (map (\<lambda>(c, b). (c, spend df c, b, percentage (spend df c) b)) budget_df))"
  by (simp add: budget_vs_actual_def merged_rows Let_def case_prod_unfold comp_def)

lemma percentage_nonzero: "b \<noteq> 0 \<Longrightarrow> percentage a b = Fin (a / b * 100)"
  by (simp add: percentage_def float_div_def float_mul_def)

lemma percentage_zero:
  "percentage a 0 = (if 0 < a then PInf else if a < 0 then NInf else NaN)"
  by (simp add: percentage_def float_div_def float_mul_def)


lemma visualize_expenses_tabs:
  assumes "df \<noteq> []" and "category_distribution df = Inr tab1"
    and "monthly_trend other df = Inr tab2"
  shows "visualize_expenses other df s =
     Inr (Tabs tab1 tab2 (budget_vs_actual df (get_budgets s)))"
  using assms by (simp add: visualize_expenses_def)

lemma visualize_expenses_reaches_budget:
  assumes "df \<noteq> []" and "\<forall>r \<in> set df. iso_date (Date r) \<noteq> None"
    and "(\<forall>c. 0 \<le> spend df c) \<or> sum_list (map Amount df) = 0"
  shows "\<exists>tab1 tab2. visualize_expenses other df s =
     Inr (Tabs tab1 tab2 (budget_vs_actual df (get_budgets s)))"
proof -
  from category_distribution_returns [OF assms(3)]
  obtain tab1 where "category_distribution df = Inr tab1" ..
  moreover from monthly_trend_returns [OF assms(1,2)]
  obtain tab2 where "monthly_trend other df = Inr tab2" ..
  ultimately have "visualize_expenses other df s =
     Inr (Tabs tab1 tab2 (budget_vs_actual df (get_budgets s)))"
    using assms(1) by (intro visualize_expenses_tabs)
  then show ?thesis by blast
qed

text \<open>The definitions that a run of the dashboard on concrete data unfolds.\<close>

lemmas dashboard_defs =
  visualize_expenses_def get_budgets_def budgets_set_budget fresh_store_def
  budget_vs_actual_def category_totals_def groupby_sum_def merge_right_def fillna_def
  percentage_def float_div_def float_mul_def category_distribution_def plot_pie_def
  monthly_trend_def to_datetime_def iso_date_def digit_def days_in_month_def is_leap_def
  resample_month_sum_def month_index_def month_of_index_def add_to_bin_def

text \<open>
  Claim C4, as the code has it. For a non-empty expense list whose dates are texts of the
  stored format and in which no category total is negative (or whose overall total is 0,
  so that no pie is drawn), and a non-empty budget table, the third tab of the dashboard is the right outer join of the category totals with the
  budget rows: one bar for every budget row, in the order of the budget rows, so that a
  category with expenses but without a budget row has no bar; the amount of a bar is the
  amount recorded in its category, 0 when nothing was recorded; and for a budget other
  than 0 the percentage is the amount divided by the budget, times 100, hence 0 when
  nothing was recorded.
\<close>

theorem budget_vs_actual_right_join:
  assumes "df \<noteq> []" and "\<forall>r \<in> set df. iso_date (Date r) \<noteq> None"
    and "(\<forall>c. 0 \<le> spend df c) \<or> sum_list (map Amount df) = 0"
    and "get_budgets s \<noteq> []"
  shows "(\<exists>tab1 tab2. visualize_expenses other df s =
            Inr (Tabs tab1 tab2
              (Bars (map (\<lambda>(c, b). (c, spend df c, b, percentage (spend df c) b))
                 (get_budgets s))))) \<and>
         (\<forall>c. c \<notin> Category ` set df \<longrightarrow> spend df c = 0) \<and>
         (\<forall>a b. b \<noteq> 0 \<longrightarrow> percentage a b = Fin (a / b * 100))"
proof -
  from visualize_expenses_reaches_budget [OF assms(1,2,3)]
  obtain tab1 tab2 where "visualize_expenses other df s =
      Inr (Tabs tab1 tab2 (budget_vs_actual df (get_budgets s)))"
    by blast
  with assms(4) have "\<exists>tab1 tab2. visualize_expenses other df s =
            Inr (Tabs tab1 tab2
              (Bars (map (\<lambda>(c, b). (c, spend df c, b, percentage (spend df c) b))
                 (get_budgets s))))"
    by (simp add: budget_vs_actual_eq)
  then show ?thesis
    by (simp add: spend_absent percentage_nonzero)
qed

theorem budget_vs_actual_right_join_witness:
  "\<exists>tab1 tab2. visualize_expenses (\<lambda>column. None)
      [\<lparr>Date = ''2024-03-09'', Category = ''Food'', Description = ''lunch'', Amount = 50\<rparr>,
       \<lparr>Date = ''2024-03-10'', Category = ''Shopping'', Description = ''shoes'', Amount = 7\<rparr>]
      (set_budget ''ann'' ''Transport'' 50 (set_budget ''ann'' ''Food'' 100 fresh_store)) =
    Inr (Tabs tab1 tab2
      (Bars [(''Food'', 50, 100, Fin 50), (''Transport'', 0, 50, Fin 0)]))"
proof -
  let ?df = "[\<lparr>Date = ''2024-03-09'', Category = ''Food'', Description = ''lunch'', Amount = 50\<rparr>,
       \<lparr>Date = ''2024-03-10'', Category = ''Shopping'', Description = ''shoes'', Amount = 7\<rparr>]"
  let ?s = "set_budget ''ann'' ''Transport'' 50 (set_budget ''ann'' ''Food'' 100 fresh_store)"
  have ne: "?df \<noteq> []" by simp
  have parse: "\<forall>r \<in> set ?df. iso_date (Date r) \<noteq> None"
    by (simp add: iso_date_def digit_def days_in_month_def is_leap_def)
  have pos: "(\<forall>c. 0 \<le> spend ?df c) \<or> sum_list (map Amount ?df) = 0"
    by (simp add: spend_def)
  have budgets: "get_budgets ?s = [(''Food'', 100), (''Transport'', 50)]"
    by (simp add: get_budgets_def budgets_set_budget fresh_store_def)
  then have set: "get_budgets ?s \<noteq> []" by simp
  have bars: "map (\<lambda>(c, b). (c, spend ?df c, b, percentage (spend ?df c) b)) (get_budgets ?s) =
      [(''Food'', 50, 100, Fin 50), (''Transport'', 0, 50, Fin 0)]"
    unfolding budgets by (simp add: spend_def percentage_def float_div_def float_mul_def)
  from budget_vs_actual_right_join [OF ne parse pos set, of "\<lambda>column. None"] show ?thesis
    unfolding bars by blast
qed

text \<open>
  Claim C4 as stated fails in four ways: on an empty expense list the dashboard stops at
  the no-data notice and computes no utilization at all; a budget of 0 without recorded
  spending gives NaN, not 0 percent; a negative category total makes the pie plot of the
  first tab raise, which ends the call before the budget tab; and so does a date column
  that pandas cannot parse, in the second tab (here the text is one that pandas rejects,
  and the parameter is taken accordingly).
\<close>

theorem budget_vs_actual_right_join_counterexample:
  "visualize_expenses (\<lambda>column. None) [] (set_budget ''ann'' ''Food'' 100 fresh_store) =
     Inr NoData \<and>
   visualize_expenses (\<lambda>column. None)
      [\<lparr>Date = ''2024-03-09'', Category = ''Transport'', Description = ''bus'', Amount = 5\<rparr>]
      (set_budget ''ann'' ''Food'' 0 fresh_store) =
    Inr (Tabs (Pie [(''Transport'', 5)]) (Line [((2024, 3), 5)]) (Bars [(''Food'', 0, 0, NaN)])) \<and>
   NaN \<noteq> Fin 0 \<and>
   visualize_expenses (\<lambda>column. None)
      [\<lparr>Date = ''2024-03-09'', Category = ''Food'', Description = ''refund'', Amount = - 5\<rparr>,
       \<lparr>Date = ''2024-03-10'', Category = ''Transport'', Description = ''bus'', Amount = 8\<rparr>]
      (set_budget ''ann'' ''Food'' 10 fresh_store) = Inl ValueError \<and>
   visualize_expenses (\<lambda>column. None)
      [\<lparr>Date = ''not a date'', Category = ''Food'', Description = ''lunch'', Amount = 50\<rparr>]
      (set_budget ''ann'' ''Food'' 100 fresh_store) = Inl ValueError"
  by (simp add: dashboard_defs)

text \<open>
  Claim C2, as the code has it. For a non-empty expense list whose dates are texts of the
  stored format and in which no category total is negative (or whose overall total is 0,
  so that no pie is drawn), and a budget table with a row of budget 0, the dashboard is
  computed without an exception and the bar of that row carries the value of the
  floating-point division itself: plus infinity when the amount recorded in the category
  is positive, minus infinity when it is negative, NaN when it is zero. No other signal
  for an undefined utilization exists.
\<close>

theorem budget_vs_actual_zero_budget:
  assumes "df \<noteq> []" and "\<forall>r \<in> set df. iso_date (Date r) \<noteq> None"
    and "(\<forall>c. 0 \<le> spend df c) \<or> sum_list (map Amount df) = 0"
    and "(c, 0) \<in> set (get_budgets s)"
  shows "\<exists>tab1 tab2 bars. visualize_expenses other df s = Inr (Tabs tab1 tab2 (Bars bars)) \<and>
         (c, spend df c, 0,
            (if 0 < spend df c then PInf else if spend df c < 0 then NInf else NaN)) \<in> set bars"
proof -
  let ?bar = "\<lambda>(c, b). (c, spend df c, b, percentage (spend df c) b)"
  let ?bars = "map ?bar (get_budgets s)"
  from assms(4) have ne: "get_budgets s \<noteq> []" by auto
  from visualize_expenses_reaches_budget [OF assms(1,2,3)]
  obtain tab1 tab2 where "visualize_expenses other df s =
      Inr (Tabs tab1 tab2 (budget_vs_actual df (get_budgets s)))"
    by blast
  with ne have run: "visualize_expenses other df s = Inr (Tabs tab1 tab2 (Bars ?bars))"
    by (simp add: budget_vs_actual_eq)
  have "?bar (c, 0) \<in> set ?bars"
    using assms(4) by (simp only: set_map) (rule imageI)
  then have bar: "(c, spend df c, 0, percentage (spend df c) 0) \<in> set ?bars"
    by (simp only: prod.case)
  then have "(c, spend df c, 0,
      (if 0 < spend df c then PInf else if spend df c < 0 then NInf else NaN)) \<in> set ?bars"
    by (simp only: percentage_zero)
  with run show ?thesis by blast
qed

theorem budget_vs_actual_zero_budget_witness:
  "(\<exists>tab1 tab2 bars. visualize_expenses (\<lambda>column. None)
      [\<lparr>Date = ''2024-05-02'', Category = ''Health'', Description = ''pills'', Amount = 12\<rparr>]
      (set_budget ''bob'' ''Other'' 0 (set_budget ''bob'' ''Health'' 0 fresh_store)) =
    Inr (Tabs tab1 tab2 (Bars bars)) \<and>
    (''Health'', 12, 0, PInf) \<in> set bars \<and> (''Other'', 0, 0, NaN) \<in> set bars) \<and>
   (\<exists>tab1 tab2 bars. visualize_expenses (\<lambda>column. None)
      [\<lparr>Date = ''2024-05-02'', Category = ''Food'', Description = ''refund'', Amount = - 5\<rparr>,
       \<lparr>Date = ''2024-05-03'', Category = ''Other'', Description = ''pen'', Amount = 5\<rparr>]
      (set_budget ''bob'' ''Food'' 0 fresh_store) =
    Inr (Tabs tab1 tab2 (Bars bars)) \<and> (''Food'', - 5, 0, NInf) \<in> set bars)"
proof -
  let ?df = "[\<lparr>Date = ''2024-05-02'', Category = ''Health'', Description = ''pills'', Amount = 12\<rparr>]"
  let ?s = "set_budget ''bob'' ''Other'' 0 (set_budget ''bob'' ''Health'' 0 fresh_store)"
  have ne: "?df \<noteq> []" by simp
  have parse: "\<forall>r \<in> set ?df. iso_date (Date r) \<noteq> None"
    by (simp add: iso_date_def digit_def days_in_month_def is_leap_def)
  have pos: "(\<forall>c. 0 \<le> spend ?df c) \<or> sum_list (map Amount ?df) = 0"
    by (simp add: spend_def)
  have budgets: "get_budgets ?s = [(''Health'', 0), (''Other'', 0)]"
    by (simp add: get_budgets_def budgets_set_budget fresh_store_def)
  have health: "(''Health'', 0) \<in> set (get_budgets ?s)" and other: "(''Other'', 0) \<in> set (get_budgets ?s)"
    unfolding budgets by simp_all
  have spent: "spend ?df ''Health'' = 12" "spend ?df ''Other'' = 0"
    by (simp_all add: spend_def)
  from budget_vs_actual_zero_budget [OF ne parse pos health, of "\<lambda>column. None"]
  obtain tab1 tab2 bars where run: "visualize_expenses (\<lambda>column. None) ?df ?s = Inr (Tabs tab1 tab2 (Bars bars))"
    and h: "(''Health'', 12, 0, PInf) \<in> set bars"
    unfolding spent by auto
  from budget_vs_actual_zero_budget [OF ne parse pos other, of "\<lambda>column. None"]
  obtain tab1' tab2' bars' where run': "visualize_expenses (\<lambda>column. None) ?df ?s = Inr (Tabs tab1' tab2' (Bars bars'))"
    and o: "(''Other'', 0, 0, NaN) \<in> set bars'"
    unfolding spent by auto
  from run run' have "bars' = bars" by simp
  with run h o have first: "\<exists>tab1 tab2 bars. visualize_expenses (\<lambda>column. None) ?df ?s =
      Inr (Tabs tab1 tab2 (Bars bars)) \<and>
      (''Health'', 12, 0, PInf) \<in> set bars \<and> (''Other'', 0, 0, NaN) \<in> set bars"
    by blast
  let ?df2 = "[\<lparr>Date = ''2024-05-02'', Category = ''Food'', Description = ''refund'', Amount = - 5\<rparr>,
       \<lparr>Date = ''2024-05-03'', Category = ''Other'', Description = ''pen'', Amount = 5\<rparr>]"
  let ?s2 = "set_budget ''bob'' ''Food'' 0 fresh_store"
  have ne2: "?df2 \<noteq> []" by simp
  have parse2: "\<forall>r \<in> set ?df2. iso_date (Date r) \<noteq> None"
    by (simp add: iso_date_def digit_def days_in_month_def is_leap_def)
  have zero2: "(\<forall>c. 0 \<le> spend ?df2 c) \<or> sum_list (map Amount ?df2) = 0"
    by simp
  have food: "(''Food'', 0) \<in> set (get_budgets ?s2)"
    by (simp add: get_budgets_def budgets_set_budget fresh_store_def)
  have spent2: "spend ?df2 ''Food'' = - 5"
    by (simp add: spend_def)
  from budget_vs_actual_zero_budget [OF ne2 parse2 zero2 food, of "\<lambda>column. None"]
  have second: "\<exists>tab1 tab2 bars. visualize_expenses (\<lambda>column. None) ?df2 ?s2 =
      Inr (Tabs tab1 tab2 (Bars bars)) \<and> (''Food'', - 5, 0, NInf) \<in> set bars"
    unfolding spent2 by simp
  from first second show ?thesis by (rule conjI)
qed

text \<open>
  Claim C2 as stated fails: with 10 spent on Food and a Food budget of 0 the percentage of
  the bar is plus infinity, not a signal of its own; on an empty expense list no bar is
  computed; and the call raises, before the budget tab, on a negative category total (in
  the pie plot of the first tab) and on a date column that pandas cannot parse (in the
  second tab; here the text is one that pandas rejects, and the parameter is taken
  accordingly).
\<close>

theorem budget_vs_actual_zero_budget_counterexample:
  "visualize_expenses (\<lambda>column. None)
      [\<lparr>Date = ''2024-04-01'', Category = ''Food'', Description = ''dinner'', Amount = 10\<rparr>]
      (set_budget ''ann'' ''Food'' 0 fresh_store) =
    Inr (Tabs (Pie [(''Food'', 10)]) (Line [((2024, 4), 10)]) (Bars [(''Food'', 10, 0, PInf)])) \<and>
   visualize_expenses (\<lambda>column. None) [] (set_budget ''ann'' ''Food'' 0 fresh_store) =
     Inr NoData \<and>
   visualize_expenses (\<lambda>column. None)
      [\<lparr>Date = ''2024-04-01'', Category = ''Food'', Description = ''refund'', Amount = - 5\<rparr>]
      (set_budget ''ann'' ''Food'' 0 fresh_store) = Inl ValueError \<and>
   visualize_expenses (\<lambda>column. None)
      [\<lparr>Date = ''2024-13-45'', Category = ''Food'', Description = ''dinner'', Amount = 10\<rparr>]
      (set_budget ''ann'' ''Food'' 0 fresh_store) = Inl ValueError"
  by (simp add: dashboard_defs)

end
